theory Spec2Isabelle
  imports Complex_Main "HOL-Library.Char_ord" "HOL-Library.List_Lexorder"
begin

section \<open>Python values used by \<open>mldatafind/io.py\<close>\<close>

text \<open>
  The exceptions the module and the runtime underneath it can raise. \<open>ValueError\<close>
  carries the message the source formats.
\<close>

datatype error =
    ValueError string
  | TypeError
  | KeyError
  | IndexError
  | AttributeError
  | ZeroDivisionError
  | OverflowError
  | FileNotFoundError

text \<open>
  A Python \<open>float\<close> (an IEEE-754 double): \<open>Fin q\<close> is the finite double whose exact
  value is the rational \<open>q\<close> (\<open>Fin 0\<close> is \<open>+0.0\<close>), \<open>NZero\<close> is \<open>-0.0\<close>.
\<close>

datatype pyfloat = Fin rat | NZero | PInf | NInf | NaN

text \<open>A Python number: an unbounded \<open>int\<close> or a \<open>float\<close>.\<close>

datatype pynum = PyInt int | PyFloat pyfloat

subsection \<open>Decimal text of integers: \<open>str(int)\<close>\<close>

definition digit_char :: "nat \<Rightarrow> char" where
  "digit_char d = ''0123456789'' ! d"

fun nat_str :: "nat \<Rightarrow> string" where
  "nat_str n = (if n < 10 then [digit_char n] else nat_str (n div 10) @ [digit_char (n mod 10)])"

declare nat_str.simps [simp del]

definition int_str :: "int \<Rightarrow> string" where
  "int_str i = (if i < 0 then CHR ''-'' # nat_str (nat (- i)) else nat_str (nat i))"

subsection \<open>Rounding a rational to the nearest double\<close>

text \<open>\<open>pow2 k\<close> is \<open>2 ^ k\<close> for an integer exponent.\<close>

definition pow2 :: "int \<Rightarrow> rat" where
  "pow2 k = (if 0 \<le> k then 2 ^ nat k else 1 / 2 ^ nat (- k))"

definition pow10 :: "int \<Rightarrow> rat" where
  "pow10 k = (if 0 \<le> k then 10 ^ nat k else 1 / 10 ^ nat (- k))"

text \<open>Number of binary digits of a natural number (\<open>int.bit_length\<close>).\<close>

fun bit_length :: "nat \<Rightarrow> nat" where
  "bit_length n = (if n = 0 then 0 else Suc (bit_length (n div 2)))"

declare bit_length.simps [simp del]

text \<open>Number of decimal digits of a positive natural number.\<close>

fun dec_length :: "nat \<Rightarrow> nat" where
  "dec_length n = (if n < 10 then 1 else Suc (dec_length (n div 10)))"

declare dec_length.simps [simp del]

text \<open>
  For a positive rational \<open>a\<close>, the exponent \<open>e\<close> with \<open>2^e \<le> a < 2^(e+1)\<close>, and
  the same to base 10: from the number of digits of the integer part of \<open>a\<close>, or of
  \<open>1 / a\<close> rounded up when \<open>a < 1\<close>.
\<close>

definition floor_log2 :: "rat \<Rightarrow> int" where
  "floor_log2 a =
     (if 1 \<le> a then int (bit_length (nat \<lfloor>a\<rfloor>)) - 1
      else - int (bit_length (nat (\<lceil>1 / a\<rceil> - 1))))"

definition floor_log10 :: "rat \<Rightarrow> int" where
  "floor_log10 a =
     (if 1 \<le> a then int (dec_length (nat \<lfloor>a\<rfloor>)) - 1
      else - int (dec_length (nat (\<lceil>1 / a\<rceil> - 1))))"

text \<open>Round to the nearest integer, ties to even.\<close>

definition round_half_even :: "rat \<Rightarrow> int" where
  "round_half_even x =
     (let f = \<lfloor>x\<rfloor>; r = x - of_int f
      in if r < 1 / 2 then f
         else if 1 / 2 < r then f + 1
         else if even f then f else f + 1)"

text \<open>
  The double nearest to a non-zero rational (round to nearest, ties to even): 53 bits
  of significand, exponents down to the subnormal range, overflow to infinity.
  A result that rounds to zero keeps the sign.
\<close>

definition round_double :: "rat \<Rightarrow> pyfloat" where
  "round_double q =
     (if q = 0 then Fin 0
      else let a = \<bar>q\<bar>;
               e = max (floor_log2 a) (- 1022);
               u = pow2 (e - 52);
               v = of_int (round_half_even (a / u)) * u
           in if pow2 1024 \<le> v then (if q < 0 then NInf else PInf)
              else if v = 0 then (if q < 0 then NZero else Fin 0)
              else Fin (if q < 0 then - v else v))"

subsection \<open>Text of a float: \<open>repr(float)\<close>, which \<open>str\<close> and f-strings use\<close>

text \<open>Whether the decimal \<open>c * scale\<close> reads back as the double of value \<open>a\<close>.\<close>

definition reads_back :: "rat \<Rightarrow> rat \<Rightarrow> int \<Rightarrow> bool" where
  "reads_back a scale c = (round_double (of_int c * scale) = Fin a)"

text \<open>
  The candidates with \<open>n\<close> significant decimal digits next to the positive value \<open>a\<close>
  (where \<open>10^p \<le> a < 10^(p+1)\<close>) that read back as the same double, the nearer one
  first (ties to the even digit string).
\<close>

definition digit_candidates :: "rat \<Rightarrow> int \<Rightarrow> nat \<Rightarrow> (int \<times> int) list" where
  "digit_candidates a p n =
     (let ex = p - int n + 1;
          scale = pow10 ex;
          lo = \<lfloor>a / scale\<rfloor>;
          dlo = a - of_int lo * scale;
          dhi = of_int (lo + 1) * scale - a;
          ordered = (if dlo < dhi \<or> (dlo = dhi \<and> even lo) then [lo, lo + 1] else [lo + 1, lo])
      in map (\<lambda>c. (c, ex)) (filter (reads_back a scale) ordered))"

text \<open>
  The shortest digit string that reads back as \<open>a\<close>, tried from 1 to 17 digits:
  the result \<open>(c, ex)\<close> stands for \<open>c * 10^ex\<close>.
\<close>

fun shortest_from :: "rat \<Rightarrow> int \<Rightarrow> nat \<Rightarrow> nat \<Rightarrow> int \<times> int" where
  "shortest_from a p n 0 = (round_half_even (a / pow10 (p - 16)), p - 16)"
| "shortest_from a p n (Suc fuel) =
     (case digit_candidates a p n of
        c # _ \<Rightarrow> c
      | [] \<Rightarrow> shortest_from a p (Suc n) fuel)"

definition shortest_digits :: "rat \<Rightarrow> int \<times> int" where
  "shortest_digits a = shortest_from a (floor_log10 a) 1 17"

fun strip_zeros :: "nat \<Rightarrow> int \<Rightarrow> nat \<times> int" where
  "strip_zeros c ex = (if c \<noteq> 0 \<and> c mod 10 = 0 then strip_zeros (c div 10) (ex + 1) else (c, ex))"

declare strip_zeros.simps [simp del]

text \<open>
  The layout of \<open>repr\<close>: with \<open>ds\<close> the digits and \<open>decpt\<close> the position of the decimal
  point (the value is \<open>0.ds * 10^decpt\<close>), exponent notation when \<open>decpt \<le> -4\<close> or
  \<open>decpt > 16\<close>, positional notation otherwise, with \<open>.0\<close> added to a whole number.
\<close>

definition layout_repr :: "string \<Rightarrow> int \<Rightarrow> string" where
  "layout_repr ds decpt =
     (let nd = int (length ds) in
      if decpt \<le> - 4 \<or> 16 < decpt then
        (let e = decpt - 1;
             es = nat_str (nat \<bar>e\<bar>)
         in take 1 ds @ (if 1 < nd then CHR ''.'' # drop 1 ds else [])
            @ ''e'' @ (if e < 0 then ''-'' else ''+'')
            @ (if length es < 2 then CHR ''0'' # es else es))
      else if decpt \<le> 0 then ''0.'' @ replicate (nat (- decpt)) CHR ''0'' @ ds
      else if nd \<le> decpt then ds @ replicate (nat (decpt - nd)) CHR ''0'' @ ''.0''
      else take (nat decpt) ds @ CHR ''.'' # drop (nat decpt) ds)"

definition float_repr :: "pyfloat \<Rightarrow> string" where
  "float_repr x =
     (case x of
        NaN \<Rightarrow> ''nan''
      | PInf \<Rightarrow> ''inf''
      | NInf \<Rightarrow> ''-inf''
      | NZero \<Rightarrow> ''-0.0''
      | Fin q \<Rightarrow>
          (if q = 0 then ''0.0''
           else let (c, ex) = shortest_digits \<bar>q\<bar>;
                    (c', ex') = strip_zeros (nat c) ex;
                    ds = nat_str c'
                in (if q < 0 then ''-'' else []) @ layout_repr ds (int (length ds) + ex')))"

text \<open>\<open>str(x)\<close>, which is what \<open>f"{x}"\<close> inserts.\<close>

definition py_str :: "pynum \<Rightarrow> string" where
  "py_str x = (case x of PyInt i \<Rightarrow> int_str i | PyFloat f \<Rightarrow> float_repr f)"

section \<open>The filename grammar\<close>

text \<open>
  The fragment of Python's regular expressions that \<open>fname_re\<close> is written in.
  A character class is a list of inclusive ranges; \<open>Repeat cs lo hi\<close> is the greedy
  repetition \<open>[cs]{lo,hi}\<close> of a class (\<open>+\<close> is \<open>{1,}\<close>); \<open>AnyChar\<close> is the dot;
  \<open>Group\<close> is a named group \<open>(?P<name>...)\<close>; \<open>EndOfString\<close> is \<open>$\<close>.
\<close>

datatype regex =
    Lit char
  | AnyChar
  | CharClass "(char \<times> char) list"
  | Repeat "(char \<times> char) list" nat "nat option"
  | Cat regex regex
  | Alt regex regex
  | Group string regex
  | EndOfString

definition in_class :: "(char \<times> char) list \<Rightarrow> char \<Rightarrow> bool" where
  "in_class cs c = list_ex (\<lambda>(a, b). a \<le> c \<and> c \<le> b) cs"

definition newline :: char where
  "newline = CHR 0x0A"

text \<open>The groups of a match object, most recently closed first.\<close>

type_synonym groups = "(string \<times> string) list"

text \<open>
  Backtracking matcher: every way the pattern matches at the start of the input, as
  the remaining input with the groups captured, in the order the engine tries them
  (greedy repetition: longest first; alternation: left first). The engine reports the
  first. \<open>$\<close> matches at the end of the string and before a newline that ends it.
\<close>

fun re_match :: "regex \<Rightarrow> string \<Rightarrow> groups \<Rightarrow> (string \<times> groups) list" where
  "re_match (Lit c) s g = (case s of [] \<Rightarrow> [] | x # r \<Rightarrow> if x = c then [(r, g)] else [])"
| "re_match AnyChar s g = (case s of [] \<Rightarrow> [] | x # r \<Rightarrow> if x \<noteq> newline then [(r, g)] else [])"
| "re_match (CharClass cs) s g =
     (case s of [] \<Rightarrow> [] | x # r \<Rightarrow> if in_class cs x then [(r, g)] else [])"
| "re_match (Repeat cs lo hi) s g =
     (let avail = length (takeWhile (in_class cs) s);
          kmax = (case hi of None \<Rightarrow> avail | Some h \<Rightarrow> min h avail)
      in map (\<lambda>k. (drop k s, g)) (rev [lo ..< Suc kmax]))"
| "re_match (Cat a b) s g = concat (map (\<lambda>(r, g'). re_match b r g') (re_match a s g))"
| "re_match (Alt a b) s g = re_match a s g @ re_match b s g"
| "re_match (Group n a) s g =
     map (\<lambda>(r, g'). (r, (n, take (length s - length r) s) # g')) (re_match a s g)"
| "re_match EndOfString s g = (if s = [] \<or> s = [newline] then [(s, g)] else [])"

text \<open>\<open>pattern.search(s)\<close>: the first match at the leftmost position that has one.\<close>

fun re_search :: "regex \<Rightarrow> string \<Rightarrow> groups option" where
  "re_search r [] = (case re_match r [] [] of [] \<Rightarrow> None | (rest, g) # _ \<Rightarrow> Some g)"
| "re_search r (x # t) =
     (case re_match r (x # t) [] of [] \<Rightarrow> re_search r t | (rest, g) # _ \<Rightarrow> Some g)"

text \<open>
  \<open>m.group(name)\<close>. Each of the four groups of \<open>fname_re\<close> takes part in every
  match, so the second branch (Python's \<open>None\<close>) is not reached for it.
\<close>

definition group :: "groups \<Rightarrow> string \<Rightarrow> string" where
  "group m n = (case map_of m n of Some v \<Rightarrow> v | None \<Rightarrow> [])"

definition digit_cls :: "(char \<times> char) list" where
  "digit_cls = [(CHR ''0'', CHR ''9'')]"

text \<open>\<open>prefix_re = "[a-zA-Z0-9_:-]+"\<close>\<close>

definition prefix_cls :: "(char \<times> char) list" where
  "prefix_cls = [(CHR ''a'', CHR ''z''), (CHR ''A'', CHR ''Z''), (CHR ''0'', CHR ''9''),
                 (CHR ''_'', CHR ''_''), (CHR '':'', CHR '':''), (CHR ''-'', CHR ''-'')]"

definition prefix_re :: regex where
  "prefix_re = Repeat prefix_cls 1 None"

text \<open>\<open>t0_re = "[0-9]{10}"\<close>\<close>

definition t0_re :: regex where
  "t0_re = Repeat digit_cls 10 (Some 10)"

text \<open>\<open>length_re = "[1-9][0-9]{0,3}"\<close>\<close>

definition length_re :: regex where
  "length_re = Cat (CharClass [(CHR ''1'', CHR ''9'')]) (Repeat digit_cls 0 (Some 3))"

text \<open>\<open>gwf|hdf5|h5\<close>\<close>

definition suffix_re :: regex where
  "suffix_re =
     Alt (Cat (Lit CHR ''g'') (Cat (Lit CHR ''w'') (Lit CHR ''f'')))
      (Alt (Cat (Lit CHR ''h'') (Cat (Lit CHR ''d'') (Cat (Lit CHR ''f'') (Lit CHR ''5''))))
           (Cat (Lit CHR ''h'') (Lit CHR ''5'')))"

text \<open>
  \<open>fname_re\<close>: \<open>(?P<prefix>...)-(?P<t0>...)-(?P<length>...).(?P<suffix>gwf|hdf5|h5)$\<close>.
  The dot before the suffix is not escaped in the source: it is \<open>AnyChar\<close>.
\<close>

definition fname_re :: regex where
  "fname_re =
     Cat (Group ''prefix'' prefix_re)
      (Cat (Lit CHR ''-'')
        (Cat (Group ''t0'' t0_re)
          (Cat (Lit CHR ''-'')
            (Cat (Group ''length'' length_re)
              (Cat AnyChar
                (Cat (Group ''suffix'' suffix_re) EndOfString))))))"

section \<open>Paths\<close>

text \<open>
  A \<open>pathlib\<close> POSIX path: its root (empty, one slash or two slashes) and its
  components.
\<close>

datatype path = Path (root: string) (parts: "string list")

fun split_on :: "char \<Rightarrow> string \<Rightarrow> string list" where
  "split_on c [] = [[]]"
| "split_on c (x # xs) =
     (if x = c then [] # split_on c xs
      else (case split_on c xs of [] \<Rightarrow> [[x]] | w # ws \<Rightarrow> (x # w) # ws))"

text \<open>\<open>Path(s)\<close>: empty components and \<open>.\<close> are dropped; exactly two leading slashes are kept.\<close>

definition parse_path :: "string \<Rightarrow> path" where
  "parse_path s =
     (let lead = length (takeWhile (\<lambda>c. c = CHR ''/'') s)
      in Path (if lead = 0 then [] else if lead = 2 then ''//'' else ''/'')
              (filter (\<lambda>x. x \<noteq> [] \<and> x \<noteq> ''.'') (split_on CHR ''/'' s)))"

text \<open>\<open>p.name\<close>: the last component, empty when there is none.\<close>

definition path_name :: "path \<Rightarrow> string" where
  "path_name p = (if parts p = [] then [] else last (parts p))"

text \<open>\<open>p / s\<close>: a rooted right operand replaces the left one.\<close>

definition joinpath :: "path \<Rightarrow> string \<Rightarrow> path" where
  "joinpath p s =
     (let q = parse_path s
      in if root q \<noteq> [] then q else Path (root p) (parts p @ parts q))"

text \<open>The list \<open>pathlib\<close> compares two paths by: the root, when there is one, then the components.\<close>

definition cparts :: "path \<Rightarrow> string list" where
  "cparts p = (if root p = [] then [] else [root p]) @ parts p"

fun intercalate :: "string \<Rightarrow> string list \<Rightarrow> string" where
  "intercalate sep [] = []"
| "intercalate sep [x] = x"
| "intercalate sep (x # y # ys) = x @ sep @ intercalate sep (y # ys)"

text \<open>\<open>str(p)\<close>\<close>

definition path_str :: "path \<Rightarrow> string" where
  "path_str p = (if root p = [] \<and> parts p = [] then ''.'' else root p @ intercalate ''/'' (parts p))"

text \<open>A file identifier as the catalog takes it: a plain \<open>str\<close> or a \<open>Path\<close>.\<close>

datatype path_like = PStr string | PPath path

definition is_path :: "path_like \<Rightarrow> bool" where
  "is_path f = (case f of PPath _ \<Rightarrow> True | PStr _ \<Rightarrow> False)"

definition is_str :: "path_like \<Rightarrow> bool" where
  "is_str f = (case f of PStr _ \<Rightarrow> True | PPath _ \<Rightarrow> False)"

text \<open>\<open>Path(f)\<close> for a string or a path.\<close>

definition to_path :: "path_like \<Rightarrow> path" where
  "to_path f = (case f of PStr s \<Rightarrow> parse_path s | PPath p \<Rightarrow> p)"

definition path_like_str :: "path_like \<Rightarrow> string" where
  "path_like_str f = (case f of PStr s \<Rightarrow> s | PPath p \<Rightarrow> path_str p)"

section \<open>Catalog sorter: \<open>filter_and_sort_files\<close>\<close>

text \<open>
  The argument \<open>fnames\<close>: a single string or path (a directory to list), or a
  collection of strings and paths.
\<close>

datatype maybe_paths = Single path_like | Many "path_like list"

text \<open>An element of \<open>tups\<close>: \<open>(m.group("t0"), f, m)\<close>.\<close>

type_synonym catalog_entry = "string \<times> path_like \<times> groups"

text \<open>What the function returns per file: the identifier as given, or its match object.\<close>

datatype ret = RetName path_like | RetMatch groups

text \<open>
  \<open>==\<close> and \<open><\<close> between two identifiers: strings compare by code point, paths by
  \<open>cparts\<close>; a string and a path are unequal and unordered.
\<close>

definition path_like_eq :: "path_like \<Rightarrow> path_like \<Rightarrow> bool" where
  "path_like_eq f f' =
     (case (f, f') of
        (PStr a, PStr b) \<Rightarrow> a = b
      | (PPath p, PPath q) \<Rightarrow> cparts p = cparts q
      | _ \<Rightarrow> False)"

definition path_like_lt :: "path_like \<Rightarrow> path_like \<Rightarrow> error + bool" where
  "path_like_lt f f' =
     (case (f, f') of
        (PStr a, PStr b) \<Rightarrow> Inr (a < b)
      | (PPath p, PPath q) \<Rightarrow> Inr (cparts p < cparts q)
      | _ \<Rightarrow> Inl TypeError)"

text \<open>
  \<open><\<close> between two tuples of \<open>tups\<close>: the first position where they differ decides.
  The third components are match objects of two separate searches: they are never
  equal and \<open>re.Match\<close> defines no order, so reaching them raises \<open>TypeError\<close>.
\<close>

definition tuple_lt :: "catalog_entry \<Rightarrow> catalog_entry \<Rightarrow> error + bool" where
  "tuple_lt x y =
     (case (x, y) of
        ((t, f, m), (t', f', m')) \<Rightarrow>
          if t \<noteq> t' then Inr (t < t')
          else if \<not> path_like_eq f f' then path_like_lt f f'
          else Inl TypeError)"

text \<open>
  \<open>sorted(tups)\<close>: a stable sort that calls \<open><\<close> on the elements; an exception of the
  comparison leaves the sort. Written as insertion from the left.
\<close>

fun insert_entry :: "catalog_entry \<Rightarrow> catalog_entry list \<Rightarrow> error + catalog_entry list" where
  "insert_entry x [] = Inr [x]"
| "insert_entry x (y # ys) =
     (case tuple_lt x y of
        Inl e \<Rightarrow> Inl e
      | Inr True \<Rightarrow> Inr (x # y # ys)
      | Inr False \<Rightarrow>
          (case insert_entry x ys of Inl e \<Rightarrow> Inl e | Inr zs \<Rightarrow> Inr (y # zs)))"

fun sort_onto :: "catalog_entry list \<Rightarrow> catalog_entry list \<Rightarrow> error + catalog_entry list" where
  "sort_onto acc [] = Inr acc"
| "sort_onto acc (x # xs) =
     (case insert_entry x acc of Inl e \<Rightarrow> Inl e | Inr acc' \<Rightarrow> sort_onto acc' xs)"

definition py_sorted :: "catalog_entry list \<Rightarrow> error + catalog_entry list" where
  "py_sorted tups = sort_onto [] tups"

text \<open>
  \<open>sep.join(items)\<close>: an item that is not a string raises \<open>TypeError\<close>. The source joins
  the list \<open>[type(i) for i in fnames]\<close>, whose items are type objects.
\<close>

datatype join_item = StrItem string | TypeItem string

fun str_join :: "string \<Rightarrow> join_item list \<Rightarrow> error + string" where
  "str_join sep [] = Inr []"
| "str_join sep (TypeItem t # rest) = Inl TypeError"
| "str_join sep (StrItem s # rest) =
     (case str_join sep rest of
        Inl e \<Rightarrow> Inl e
      | Inr r \<Rightarrow> Inr (if rest = [] then s else s @ sep @ r))"

definition type_of :: "path_like \<Rightarrow> join_item" where
  "type_of f = (case f of PStr _ \<Rightarrow> TypeItem ''str'' | PPath _ \<Rightarrow> TypeItem ''PosixPath'')"

text \<open>
  Lines 59 to 67: the names that match, each with its \<open>t0\<close> group, its identifier and
  its match, sorted, then the identifiers or the matches.
\<close>

fun tups_of :: "(groups option \<times> path_like) list \<Rightarrow> catalog_entry list" where
  "tups_of [] = []"
| "tups_of ((None, f) # rest) = tups_of rest"
| "tups_of ((Some m, f) # rest) = (group m ''t0'', f, m) # tups_of rest"

definition sort_matches :: "path_like list \<Rightarrow> string list \<Rightarrow> bool \<Rightarrow> error + ret list" where
  "sort_matches fnames fname_it return_matches =
     (let matches = zip (map (re_search fname_re) fname_it) fnames;
          tups = tups_of matches
      in case py_sorted tups of
           Inl e \<Rightarrow> Inl e
         | Inr ts \<Rightarrow>
             Inr (map (\<lambda>(t, f, m). if return_matches then RetMatch m else RetName f) ts))"

definition not_a_directory :: "path_like \<Rightarrow> string" where
  "not_a_directory fnames = [CHR 0x27] @ path_like_str fnames @ [CHR 0x27] @ '' is not a directory''"

definition mixed_types_msg :: string where
  "mixed_types_msg =
     [CHR 0x27] @ ''fnames'' @ [CHR 0x27] @ '' must either be a path to a directory ''
     @ ''or an iterable containing either all strings ''
     @ ''or all '' @ [CHR 0x27] @ ''pathlib.Path'' @ [CHR 0x27] @ '' objects, instead found ''"

text \<open>
  The directories of the file system, as \<open>iterdir\<close> lists them: \<open>None\<close> for a path
  that is not a directory.
\<close>

type_synonym listing = "path \<Rightarrow> path list option"

definition filter_and_sort_files :: "listing \<Rightarrow> maybe_paths \<Rightarrow> bool \<Rightarrow> error + ret list" where
  "filter_and_sort_files iterdir fnames return_matches =
     (case fnames of
        Single d \<Rightarrow>
          (case iterdir (to_path d) of
             None \<Rightarrow> Inl (ValueError (not_a_directory d))
           | Some children \<Rightarrow>
               sort_matches (map PPath children) (map path_name children) return_matches)
      | Many fs \<Rightarrow>
          if list_all is_path fs then
            sort_matches fs (map (\<lambda>f. path_name (to_path f)) fs) return_matches
          else if \<not> list_all is_str fs then
            (case str_join '', '' (map type_of fs) of
               Inl e \<Rightarrow> Inl e
             | Inr found \<Rightarrow> Inl (ValueError (mixed_types_msg @ found)))
          else
            sort_matches fs (map (\<lambda>f. path_name (to_path f)) fs) return_matches)"

section \<open>Archive files\<close>

text \<open>
  An HDF5 file as the module uses it: attributes of the file, and datasets by name,
  each with its data and its attributes. The file system maps a path to the archive
  stored there. Failures of the storage layer itself (a missing directory, a full
  disk) are outside the model: opening a file for writing creates or truncates it.
\<close>

record 'a dataset =
  ds_data :: "'a list"
  ds_attrs :: "string \<rightharpoonup> pynum"

record 'a h5file =
  file_attrs :: "string \<rightharpoonup> pynum"
  datasets :: "string \<rightharpoonup> 'a dataset"

type_synonym 'a filesystem = "path \<rightharpoonup> 'a h5file"

definition empty_file :: "'a h5file" where
  "empty_file = \<lparr>file_attrs = Map.empty, datasets = Map.empty\<rparr>"

text \<open>The value \<open>TimeSeries(data, t0=t0, sample_rate=sample_rate)\<close> is built from.\<close>

record 'a timeseries =
  ts_data :: "'a list"
  ts_t0 :: pynum
  ts_sample_rate :: pynum

text \<open>\<open>d[k] = v\<close> on a dictionary that keeps insertion order.\<close>

fun dict_set :: "('k \<times> 'v) list \<Rightarrow> 'k \<Rightarrow> 'v \<Rightarrow> ('k \<times> 'v) list" where
  "dict_set [] k v = [(k, v)]"
| "dict_set ((k', v') # d) k v = (if k' = k then (k, v) # d else (k', v') # dict_set d k v)"

section \<open>Archive codec, read path: \<open>read_timeseries\<close>\<close>

text \<open>\<open>path.fname\<close>: a \<open>pathlib\<close> path has no attribute of that name (the last
  component is \<open>path.name\<close>), so the attribute access raises.\<close>

definition path_fname :: "path \<Rightarrow> error + string" where
  "path_fname p = Inl AttributeError"

definition missing_channel_msg :: "string \<Rightarrow> string \<Rightarrow> string" where
  "missing_channel_msg fname channel =
     ''Data file '' @ fname @ '' doesn'' @ [CHR 0x27] @ ''t contain channel '' @ channel"

text \<open>The loop over the requested channels, with \<open>ts_dict\<close> as built so far.\<close>

fun read_channels ::
  "path \<Rightarrow> 'a h5file \<Rightarrow> pynum \<Rightarrow> string list \<Rightarrow> (string \<times> 'a timeseries) list
     \<Rightarrow> error + (string \<times> 'a timeseries) list" where
  "read_channels path f t0 [] ts_dict = Inr ts_dict"
| "read_channels path f t0 (channel # rest) ts_dict =
     (case datasets f channel of
        None \<Rightarrow>
          (case path_fname path of
             Inl e \<Rightarrow> Inl e
           | Inr fname \<Rightarrow> Inl (ValueError (missing_channel_msg fname channel)))
      | Some dataset \<Rightarrow>
          (case ds_attrs dataset ''sample_rate'' of
             None \<Rightarrow> Inl KeyError
           | Some sample_rate \<Rightarrow>
               read_channels path f t0 rest
                 (dict_set ts_dict channel
                    \<lparr>ts_data = ds_data dataset, ts_t0 = t0, ts_sample_rate = sample_rate\<rparr>)))"

definition read_timeseries ::
  "'a filesystem \<Rightarrow> path \<Rightarrow> string list \<Rightarrow> error + (string \<times> 'a timeseries) list" where
  "read_timeseries fs path channels =
     (case fs path of
        None \<Rightarrow> Inl FileNotFoundError
      | Some f \<Rightarrow>
          (case file_attrs f ''t0'' of
             None \<Rightarrow> Inl KeyError
           | Some t0 \<Rightarrow> read_channels path f t0 channels []))"

section \<open>Archive codec, write path: \<open>write_timeseries\<close>\<close>

text \<open>The argument \<open>sample_rate\<close>: one number, or a list with one number per channel.\<close>

datatype rate_spec = Scalar pynum | RateList "pynum list"

text \<open>
  \<open>len(dataset) / sample_rate\<close>: true division of an \<open>int\<close> by an \<open>int\<close> or a \<open>float\<close>,
  rounded to the nearest double. Division by zero raises; a zero result takes the sign
  of the divisor.
\<close>

definition signed_zero :: "bool \<Rightarrow> pyfloat" where
  "signed_zero negative = (if negative then NZero else Fin 0)"

definition len_div :: "nat \<Rightarrow> pynum \<Rightarrow> error + pyfloat" where
  "len_div n sample_rate =
     (case sample_rate of
        PyInt k \<Rightarrow>
          if k = 0 then Inl ZeroDivisionError
          else if n = 0 then Inr (signed_zero (k < 0))
          else Inr (round_double (of_nat n / of_int k))
      | PyFloat x \<Rightarrow>
          (case round_double (of_nat n) of
             Fin nf \<Rightarrow>
               (case x of
                  Fin q \<Rightarrow>
                    if q = 0 then Inl ZeroDivisionError
                    else if n = 0 then Inr (signed_zero (q < 0))
                    else Inr (round_double (nf / q))
                | NZero \<Rightarrow> Inl ZeroDivisionError
                | PInf \<Rightarrow> Inr (Fin 0)
                | NInf \<Rightarrow> Inr NZero
                | NaN \<Rightarrow> Inr NaN)
           | _ \<Rightarrow> Inl OverflowError))"

text \<open>The list comprehension \<open>lengths\<close> over \<open>zip(channels.values(), sample_rate)\<close>.\<close>

fun lengths_of :: "(string \<times> 'a list) list \<Rightarrow> pynum list \<Rightarrow> error + pyfloat list" where
  "lengths_of ((key, dataset) # channels) (sample_rate # rates) =
     (case len_div (length dataset) sample_rate of
        Inl e \<Rightarrow> Inl e
      | Inr l \<Rightarrow>
          (case lengths_of channels rates of Inl e \<Rightarrow> Inl e | Inr ls \<Rightarrow> Inr (l # ls)))"
| "lengths_of _ _ = Inr []"

text \<open>
  \<open>==\<close> on floats: a NaN equals nothing, the two zeros are equal. \<open>set(lengths)\<close> keeps
  one of each class of equal elements (each quotient is an object of its own, so two
  NaNs are two elements).
\<close>

definition float_eq :: "pyfloat \<Rightarrow> pyfloat \<Rightarrow> bool" where
  "float_eq x y =
     (case (x, y) of
        (NaN, _) \<Rightarrow> False
      | (_, NaN) \<Rightarrow> False
      | (NZero, Fin q) \<Rightarrow> q = 0
      | (Fin q, NZero) \<Rightarrow> q = 0
      | _ \<Rightarrow> x = y)"

definition set_add :: "pyfloat list \<Rightarrow> pyfloat \<Rightarrow> pyfloat list" where
  "set_add s x = (if list_ex (float_eq x) s then s else s @ [x])"

definition py_set :: "pyfloat list \<Rightarrow> pyfloat list" where
  "py_set xs = foldl set_add [] xs"

text \<open>\<open>int(x)\<close> truncates toward zero and raises on NaN and the infinities.\<close>

definition float_to_int :: "pyfloat \<Rightarrow> error + int" where
  "float_to_int x =
     (case x of
        Fin q \<Rightarrow> Inr (if 0 \<le> q then \<lfloor>q\<rfloor> else \<lceil>q\<rceil>)
      | NZero \<Rightarrow> Inr 0
      | NaN \<Rightarrow> Inl (ValueError ''cannot convert float NaN to integer'')
      | _ \<Rightarrow> Inl OverflowError)"

text \<open>\<open>i == x\<close> between an \<open>int\<close> and a \<open>float\<close> compares the exact values.\<close>

definition int_eq_float :: "int \<Rightarrow> pyfloat \<Rightarrow> bool" where
  "int_eq_float i x =
     (case x of Fin q \<Rightarrow> of_int i = q | NZero \<Rightarrow> i = 0 | _ \<Rightarrow> False)"

text \<open>Line 145: \<open>length = int(length) if int(length) == length else length\<close>.\<close>

definition length_field :: "pyfloat \<Rightarrow> error + pynum" where
  "length_field l =
     (case float_to_int l of
        Inl e \<Rightarrow> Inl e
      | Inr i \<Rightarrow> if int_eq_float i l then Inr (PyInt i) else Inr (PyFloat l))"

text \<open>The f-string of line 148.\<close>

definition format_fname :: "string \<Rightarrow> pynum \<Rightarrow> pynum \<Rightarrow> string" where
  "format_fname prefix t0 len = prefix @ ''-'' @ py_str t0 @ ''-'' @ py_str len @ ''.hdf5''"

text \<open>
  The loop of lines 152 to 157 over \<open>enumerate(channels.items())\<close>, from index \<open>i\<close>, on
  the open file: the exception raised, if any, and the file as it is left. Creating a
  dataset under a name that exists is an error of the storage layer.
\<close>

fun write_channels ::
  "'a h5file \<Rightarrow> pynum \<Rightarrow> pynum list \<Rightarrow> nat \<Rightarrow> (string \<times> 'a list) list
     \<Rightarrow> error option \<times> 'a h5file" where
  "write_channels f t0 rates i [] = (None, f)"
| "write_channels f t0 rates i ((key, val) # rest) =
     (let f1 = f\<lparr>file_attrs := (file_attrs f)(''t0'' \<mapsto> t0)\<rparr> in
      if datasets f1 key \<noteq> None then
        (Some (ValueError ''Unable to create dataset (name already exists)''), f1)
      else
        let f2 = f1\<lparr>datasets := (datasets f1)(key \<mapsto> \<lparr>ds_data = val, ds_attrs = Map.empty\<rparr>)\<rparr> in
        if length rates \<le> i then (Some IndexError, f2)
        else
          write_channels
            (f2\<lparr>datasets := (datasets f2)
                  (key \<mapsto> \<lparr>ds_data = val, ds_attrs = [''sample_rate'' \<mapsto> rates ! i]\<rparr>)\<rparr>)
            t0 rates (Suc i) rest)"

definition cardinality_msg :: "nat \<Rightarrow> nat \<Rightarrow> string" where
  "cardinality_msg n_rates n_channels =
     ''Only '' @ nat_str n_rates @ '' sample rates provided for ''
     @ nat_str n_channels @ '' channels''"

definition duration_msg :: string where
  "duration_msg = ''Duration of datasets must all be equal''"

text \<open>Lines 128 to 159, with \<open>sample_rate\<close> a list.\<close>

definition write_with_rates ::
  "'a filesystem \<Rightarrow> path \<Rightarrow> pynum \<Rightarrow> pynum list \<Rightarrow> string \<Rightarrow> (string \<times> 'a list) list
     \<Rightarrow> (error + path) \<times> 'a filesystem" where
  "write_with_rates fs write_dir t0 sample_rate prefix channels =
     (if length sample_rate \<noteq> length channels then
        (Inl (ValueError (cardinality_msg (length sample_rate) (length channels))), fs)
      else
        case lengths_of channels sample_rate of
          Inl e \<Rightarrow> (Inl e, fs)
        | Inr lengths \<Rightarrow>
            if length (py_set lengths) \<noteq> 1 then (Inl (ValueError duration_msg), fs)
            else
              (case lengths of
                 [] \<Rightarrow> (Inl IndexError, fs)
               | l0 # _ \<Rightarrow>
                   (case length_field l0 of
                      Inl e \<Rightarrow> (Inl e, fs)
                    | Inr len \<Rightarrow>
                        let fname = joinpath write_dir (format_fname prefix t0 len);
                            (err, f) = write_channels empty_file t0 sample_rate 0 channels
                        in (case err of Some e \<Rightarrow> Inl e | None \<Rightarrow> Inr fname,
                            fs(fname \<mapsto> f)))))"

text \<open>
  Lines 125 to 128: a \<open>float\<close> is repeated for every channel; any other value goes
  on as it is, and \<open>len\<close> of an \<open>int\<close> raises \<open>TypeError\<close>.
\<close>

definition rate_list :: "rate_spec \<Rightarrow> nat \<Rightarrow> error + pynum list" where
  "rate_list sample_rate n_channels =
     (case sample_rate of
        Scalar (PyFloat x) \<Rightarrow> Inr (replicate n_channels (PyFloat x))
      | Scalar (PyInt k) \<Rightarrow> Inl TypeError
      | RateList rates \<Rightarrow> Inr rates)"

text \<open>
  \<open>write_timeseries\<close>: the path returned or the exception raised, with the file
  system as the call leaves it.
\<close>

definition write_timeseries ::
  "'a filesystem \<Rightarrow> path \<Rightarrow> pynum \<Rightarrow> rate_spec \<Rightarrow> string \<Rightarrow> (string \<times> 'a list) list
     \<Rightarrow> (error + path) \<times> 'a filesystem" where
  "write_timeseries fs write_dir t0 sample_rate prefix channels =
     (case rate_list sample_rate (length channels) of
        Inl e \<Rightarrow> (Inl e, fs)
      | Inr rates \<Rightarrow> write_with_rates fs write_dir t0 rates prefix channels)"

section \<open>Example inputs\<close>

text \<open>A file system without archives, and one without directories to list.\<close>

definition no_files :: "int filesystem" where
  "no_files = Map.empty"

definition no_directories :: listing where
  "no_directories = (\<lambda>p. None)"

text \<open>
  An archive with the single channel \<open>strain\<close>, stored under a name of the catalog's
  form.
\<close>

definition h1_file :: "int h5file" where
  "h1_file =
     \<lparr>file_attrs = [''t0'' \<mapsto> PyFloat (Fin 1000000000)],
      datasets = [''strain'' \<mapsto>
                    \<lparr>ds_data = [1, 2], ds_attrs = [''sample_rate'' \<mapsto> PyFloat (Fin 100)]\<rparr>]\<rparr>"

definition h1_path :: path where
  "h1_path = Path ''/'' [''data'', ''H1-1000000000-10.hdf5'']"

definition one_file :: "int filesystem" where
  "one_file = [h1_path \<mapsto> h1_file]"

text \<open>The directory written to, and sample sequences of 1000, 500 and 1250 samples.\<close>

definition data_dir :: path where
  "data_dir = Path ''/'' [''data'']"

definition samples_1000 :: "int list" where
  "samples_1000 = replicate 1000 0"

definition samples_500 :: "int list" where
  "samples_500 = replicate 500 1"

definition samples_1250 :: "int list" where
  "samples_1250 = replicate 1250 2"

text \<open>
  The write of the scenario in the specification: \<open>t0 = 1000000000.0\<close>, one sample rate
  of \<open>100.0\<close>, prefix \<open>H1\<close>, the channel \<open>strain\<close> with 1000 samples; and the path it
  returns.
\<close>

definition scenario_write :: "(error + path) \<times> int filesystem" where
  "scenario_write =
     write_timeseries no_files data_dir (PyFloat (Fin 1000000000)) (Scalar (PyFloat (Fin 100)))
       ''H1'' [(''strain'', samples_1000)]"

definition scenario_path :: path where
  "scenario_path = Path ''/'' [''data'', ''H1-1000000000.0-10.hdf5'']"

text \<open>The same write with the start time given as the integer \<open>1000000000\<close>.\<close>

definition int_t0_write :: "(error + path) \<times> int filesystem" where
  "int_t0_write =
     write_timeseries no_files data_dir (PyInt 1000000000) (Scalar (PyFloat (Fin 100)))
       ''H1'' [(''strain'', samples_1000)]"

section \<open>Evaluating the numeric functions on literals\<close>

text \<open>
  Rewrite rules for concrete inputs: floors and ceilings of quotients of literals, and
  forms of the definitions whose local bindings are substituted, so that the
  recursive functions are only unfolded on literals.
\<close>

lemma floor_rat_numeral: "\<lfloor>numeral a / numeral b :: rat\<rfloor> = numeral a div numeral b"
  by (metis floor_divide_of_int_eq of_int_numeral)

lemma ceiling_rat_numeral: "\<lceil>numeral a / numeral b :: rat\<rceil> = - (- numeral a div numeral b)"
  using ceiling_divide_eq_div [of "numeral a" "numeral b", where ?'a = rat] by simp

lemma ceiling_rat_one_numeral: "\<lceil>1 / numeral b :: rat\<rceil> = - (- 1 div numeral b)"
  using ceiling_divide_eq_div [of 1 "numeral b", where ?'a = rat] by simp

lemma shortest_from_numeral:
  "shortest_from a p n (numeral k) =
     (case digit_candidates a p n of
        c # _ \<Rightarrow> c
      | [] \<Rightarrow> shortest_from a p (Suc n) (pred_numeral k))"
  by (simp add: numeral_eq_Suc)

lemma round_double_unfold:
  "round_double q =
     (if q = 0 then Fin 0
      else if pow2 1024 \<le> of_int (round_half_even (\<bar>q\<bar> / pow2 (max (floor_log2 \<bar>q\<bar>) (- 1022) - 52)))
                            * pow2 (max (floor_log2 \<bar>q\<bar>) (- 1022) - 52)
      then (if q < 0 then NInf else PInf)
      else if of_int (round_half_even (\<bar>q\<bar> / pow2 (max (floor_log2 \<bar>q\<bar>) (- 1022) - 52)))
                * pow2 (max (floor_log2 \<bar>q\<bar>) (- 1022) - 52) = 0
      then (if q < 0 then NZero else Fin 0)
      else Fin (if q < 0
                then - (of_int (round_half_even (\<bar>q\<bar> / pow2 (max (floor_log2 \<bar>q\<bar>) (- 1022) - 52)))
                          * pow2 (max (floor_log2 \<bar>q\<bar>) (- 1022) - 52))
                else of_int (round_half_even (\<bar>q\<bar> / pow2 (max (floor_log2 \<bar>q\<bar>) (- 1022) - 52)))
                          * pow2 (max (floor_log2 \<bar>q\<bar>) (- 1022) - 52)))"
  unfolding round_double_def Let_def by (rule refl)

lemma digit_candidates_unfold:
  "digit_candidates a p n =
     map (\<lambda>c. (c, p - int n + 1))
       (filter (reads_back a (pow10 (p - int n + 1)))
          (if a - of_int \<lfloor>a / pow10 (p - int n + 1)\<rfloor> * pow10 (p - int n + 1)
                < of_int (\<lfloor>a / pow10 (p - int n + 1)\<rfloor> + 1) * pow10 (p - int n + 1) - a
              \<or> (a - of_int \<lfloor>a / pow10 (p - int n + 1)\<rfloor> * pow10 (p - int n + 1)
                    = of_int (\<lfloor>a / pow10 (p - int n + 1)\<rfloor> + 1) * pow10 (p - int n + 1) - a
                  \<and> even \<lfloor>a / pow10 (p - int n + 1)\<rfloor>)
           then [\<lfloor>a / pow10 (p - int n + 1)\<rfloor>, \<lfloor>a / pow10 (p - int n + 1)\<rfloor> + 1]
           else [\<lfloor>a / pow10 (p - int n + 1)\<rfloor> + 1, \<lfloor>a / pow10 (p - int n + 1)\<rfloor>]))"
  unfolding digit_candidates_def Let_def by (rule refl)

lemma layout_repr_unfold:
  "layout_repr ds decpt =
     (if decpt \<le> - 4 \<or> 16 < decpt then
        take 1 ds @ (if 1 < int (length ds) then CHR ''.'' # drop 1 ds else [])
        @ ''e'' @ (if decpt - 1 < 0 then ''-'' else ''+'')
        @ (if length (nat_str (nat \<bar>decpt - 1\<bar>)) < 2 then CHR ''0'' # nat_str (nat \<bar>decpt - 1\<bar>)
           else nat_str (nat \<bar>decpt - 1\<bar>))
      else if decpt \<le> 0 then ''0.'' @ replicate (nat (- decpt)) CHR ''0'' @ ds
      else if int (length ds) \<le> decpt then
        ds @ replicate (nat (decpt - int (length ds))) CHR ''0'' @ ''.0''
      else take (nat decpt) ds @ CHR ''.'' # drop (nat decpt) ds)"
  unfolding layout_repr_def Let_def by (rule refl)

lemma float_repr_Fin:
  "float_repr (Fin q) =
     (if q = 0 then ''0.0''
      else (if q < 0 then ''-'' else []) @
        layout_repr
          (nat_str (fst (strip_zeros (nat (fst (shortest_digits \<bar>q\<bar>))) (snd (shortest_digits \<bar>q\<bar>)))))
          (int (length (nat_str (fst (strip_zeros (nat (fst (shortest_digits \<bar>q\<bar>)))
                                        (snd (shortest_digits \<bar>q\<bar>))))))
           + snd (strip_zeros (nat (fst (shortest_digits \<bar>q\<bar>))) (snd (shortest_digits \<bar>q\<bar>)))))"
  unfolding float_repr_def Let_def case_prod_beta by simp

lemmas float_eval = floor_log10_def floor_log2_def dec_length.simps bit_length.simps pow10_def
  pow2_def round_double_unfold round_half_even_def Let_def floor_rat_numeral ceiling_rat_numeral
  ceiling_rat_one_numeral reads_back_def digit_candidates_unfold

lemma replicate_numeral: "replicate (numeral k) x = x # replicate (pred_numeral k) x"
  by (simp add: numeral_eq_Suc)

lemma length_samples [simp]:
  "length samples_1000 = 1000" "length samples_500 = 500" "length samples_1250 = 1250"
  by (simp_all add: samples_1000_def samples_500_def samples_1250_def)

lemma round_double_1000: "round_double 1000 = Fin 1000"
  by (simp add: float_eval)

lemma round_double_500: "round_double 500 = Fin 500"
  by (simp add: float_eval)

lemma round_double_1250: "round_double 1250 = Fin 1250"
  by (simp add: float_eval)

lemma round_double_10: "round_double 10 = Fin 10"
  by (simp add: float_eval)

lemma round_double_25_2: "round_double (25 / 2) = Fin (25 / 2)"
  by (simp add: float_eval)

lemmas round_double_values =
  round_double_1000 round_double_500 round_double_1250 round_double_10 round_double_25_2

lemma len_div_1000_100: "len_div 1000 (PyFloat (Fin 100)) = Inr (Fin 10)"
  by (simp add: len_div_def round_double_values)

lemma len_div_500_40: "len_div 500 (PyFloat (Fin 40)) = Inr (Fin (25 / 2))"
  by (simp add: len_div_def round_double_values)

lemma len_div_500_50: "len_div 500 (PyFloat (Fin 50)) = Inr (Fin 10)"
  by (simp add: len_div_def round_double_values)

lemma len_div_1250_100: "len_div 1250 (PyFloat (Fin 100)) = Inr (Fin (25 / 2))"
  by (simp add: len_div_def round_double_values)

lemmas len_div_values = len_div_1000_100 len_div_500_40 len_div_500_50 len_div_1250_100

lemma shortest_digits_t0: "shortest_digits 1000000000 = (1, 9)"
  by (simp add: shortest_digits_def shortest_from_numeral float_eval)

lemma shortest_digits_25_2: "shortest_digits (25 / 2) = (125, - 1)"
  by (simp add: shortest_digits_def shortest_from_numeral float_eval)

lemma float_repr_t0: "float_repr (Fin 1000000000) = ''1000000000.0''"
  by (simp add: float_repr_Fin shortest_digits_t0 strip_zeros.simps layout_repr_unfold
        nat_str.simps digit_char_def replicate_numeral)

lemma float_repr_25_2: "float_repr (Fin (25 / 2)) = ''12.5''"
  by (simp add: float_repr_Fin shortest_digits_25_2 strip_zeros.simps layout_repr_unfold
        nat_str.simps digit_char_def)

section \<open>Write path: validation of the arguments\<close>

text \<open>
  C7: a per-channel list of sample rates whose length differs from the number of
  channels makes the write raise \<open>ValueError\<close> with a message that gives both the
  number of sample rates and the number of channels, and the file system is as it was.
\<close>

theorem write_rejects_rate_count_mismatch:
  assumes "length rates \<noteq> length channels"
  shows "write_timeseries fs write_dir t0 (RateList rates) prefix channels =
           (Inl (ValueError (''Only '' @ nat_str (length rates) @ '' sample rates provided for ''
                             @ nat_str (length channels) @ '' channels'')), fs)"
  using assms
  by (simp add: write_timeseries_def rate_list_def write_with_rates_def cardinality_msg_def)

theorem write_rejects_rate_count_mismatch_witness:
  "write_timeseries no_files (Path ''/'' [''data'']) (PyFloat (Fin 1000000000))
     (RateList [PyFloat (Fin 100)]) ''H1'' [(''strain'', [1, 2]), (''aux'', [3, 4])]
   = (Inl (ValueError ''Only 1 sample rates provided for 2 channels''), no_files)"
  using write_rejects_rate_count_mismatch
          [of "[PyFloat (Fin 100)]" "[(''strain'', [1, 2]), (''aux'', [3, 4 :: int])]" no_files
              "Path ''/'' [''data'']" "PyFloat (Fin 1000000000)" "''H1''"]
  by (simp add: nat_str.simps digit_char_def)

lemma py_set_Nil: "py_set [] = []"
  by (simp add: py_set_def)

text \<open>
  C9: with no channels the write always fails and leaves the file system as it was;
  when the sample rates agree with zero channels (an empty list, or one \<open>float\<close>) the
  exception is the one of the duration check.
\<close>

theorem write_empty_channels_fails:
  "(\<exists>e. write_timeseries fs write_dir t0 sample_rate prefix [] = (Inl e, fs))
   \<and> write_timeseries fs write_dir t0 (RateList []) prefix []
       = (Inl (ValueError ''Duration of datasets must all be equal''), fs)
   \<and> write_timeseries fs write_dir t0 (Scalar (PyFloat x)) prefix []
       = (Inl (ValueError ''Duration of datasets must all be equal''), fs)"
  by (auto simp: write_timeseries_def rate_list_def write_with_rates_def py_set_Nil duration_msg_def
           split: rate_spec.splits pynum.splits)

text \<open>
  C10: a single \<open>int\<close> given as the sample rate is not repeated for the channels: taking
  its length raises \<open>TypeError\<close>, whatever the channels are, and nothing is written.
\<close>

theorem write_int_rate_type_error:
  "rate_list (Scalar (PyInt k)) (length channels) = Inl TypeError
   \<and> write_timeseries fs write_dir t0 (Scalar (PyInt k)) prefix channels = (Inl TypeError, fs)"
  by (simp add: write_timeseries_def rate_list_def)

section \<open>Read path: a channel that the archive does not hold\<close>

text \<open>
  C4: the claim is that a read asking for a channel the archive does not hold raises
  the module's \<open>ValueError\<close> naming the channel and the file. Reading \<open>strain\<close> and
  \<open>aux\<close> from an archive that holds only \<open>strain\<close> raises \<open>AttributeError\<close> instead:
  the handler formats its message from \<open>path.fname\<close>.
\<close>

theorem read_missing_channel_attribute_error:
  "read_timeseries one_file h1_path [''strain'', ''aux''] = Inl AttributeError"
  by (simp add: read_timeseries_def one_file_def h1_file_def path_fname_def)

text \<open>No read ever ends in the \<open>ValueError\<close> of the handler.\<close>

lemma read_channels_no_value_error:
  "read_channels path f t0 channels ts_dict \<noteq> Inl (ValueError msg)"
  by (induction channels arbitrary: ts_dict) (auto simp: path_fname_def split: option.splits)

lemma read_timeseries_no_value_error:
  "read_timeseries fs path channels \<noteq> Inl (ValueError msg)"
  by (simp add: read_timeseries_def read_channels_no_value_error split: option.splits)

section \<open>Catalog sorter: what it raises\<close>

text \<open>
  C5: the claim is that a collection mixing paths and strings raises \<open>ValueError\<close>
  with the types found. On a path followed by a string the call raises \<open>TypeError\<close>:
  the message is built by joining type objects.
\<close>

theorem sort_mixed_types_type_error:
  "filter_and_sort_files no_directories (Many [PPath h1_path, PStr ''H1-1000000010-10.hdf5'']) False
     = Inl TypeError"
  by (simp add: filter_and_sort_files_def is_path_def is_str_def type_of_def)

lemma str_join_types: "fs \<noteq> [] \<Longrightarrow> str_join sep (map type_of fs) = Inl TypeError"
  by (cases fs) (auto simp: type_of_def split: path_like.splits)

text \<open>The same for every mixed collection and either return mode.\<close>

lemma mixed_collection_type_error:
  assumes "\<not> list_all is_path fs" and "\<not> list_all is_str fs"
  shows "filter_and_sort_files iterdir (Many fs) return_matches = Inl TypeError"
proof -
  from assms(1) have "fs \<noteq> []" by auto
  then show ?thesis
    using assms by (simp add: filter_and_sort_files_def str_join_types)
qed

text \<open>
  C3: the claim is that the sort returns the matching names of every collection in the
  order of their \<open>t0\<close>. On a collection that holds the same matching name twice the
  call raises \<open>TypeError\<close>: the two tuples agree on \<open>t0\<close> and on the name, and the
  comparison goes on to the match objects.
\<close>

theorem sort_duplicate_entries_type_error:
  "filter_and_sort_files no_directories
     (Many [PStr ''H1-1000000000-10.hdf5'', PStr ''H1-1000000000-10.hdf5'']) False
   = Inl TypeError"
  by code_simp

section \<open>Write path: the duration check\<close>

lemma float_eq_sym: "float_eq x y \<Longrightarrow> float_eq y x"
  by (auto simp: float_eq_def split: pyfloat.splits)

lemma float_eq_trans: "float_eq x y \<Longrightarrow> float_eq y z \<Longrightarrow> float_eq x z"
  by (auto simp: float_eq_def split: pyfloat.splits)

lemma set_add_length: "length s \<le> length (set_add s x)"
  by (simp add: set_add_def)

lemma foldl_set_add_length: "length s \<le> length (foldl set_add s xs)"
proof (induction xs arbitrary: s)
  case Nil
  show ?case by simp
next
  case (Cons y ys)
  have "length s \<le> length (set_add s y)" by (rule set_add_length)
  also have "\<dots> \<le> length (foldl set_add (set_add s y) ys)" by (rule Cons.IH)
  finally show ?case by simp
qed

text \<open>Starting from one element, the set stays a singleton exactly when every further
  element equals it.\<close>

lemma foldl_set_add_single:
  "length (foldl set_add [x] xs) = Suc 0 \<longleftrightarrow> (\<forall>y\<in>set xs. float_eq y x)"
proof (induction xs)
  case Nil
  show ?case by simp
next
  case (Cons y ys)
  show ?case
  proof (cases "float_eq y x")
    case True
    then have "set_add [x] y = [x]" by (simp add: set_add_def)
    with Cons True show ?thesis by simp
  next
    case False
    then have "set_add [x] y = [x, y]" by (simp add: set_add_def)
    moreover have "2 \<le> length (foldl set_add [x, y] ys)"
      using foldl_set_add_length [of "[x, y]" ys] by simp
    ultimately show ?thesis using False by simp
  qed
qed

lemma all_equal_Cons:
  "(\<forall>y\<in>set xs. float_eq y x) \<longleftrightarrow> sorted_wrt float_eq (x # xs)"
proof
  assume a: "\<forall>y\<in>set xs. float_eq y x"
  have "sorted_wrt float_eq xs"
    unfolding sorted_wrt_iff_nth_less
  proof (intro allI impI)
    fix i j assume "i < j" "j < length xs"
    then have "float_eq (xs ! i) x" "float_eq (xs ! j) x" using a by auto
    then show "float_eq (xs ! i) (xs ! j)"
      by (meson float_eq_sym float_eq_trans)
  qed
  with a show "sorted_wrt float_eq (x # xs)" by (auto intro: float_eq_sym)
next
  assume "sorted_wrt float_eq (x # xs)"
  then show "\<forall>y\<in>set xs. float_eq y x" by (auto intro: float_eq_sym)
qed

lemma py_set_single:
  "length (py_set ls) = Suc 0 \<longleftrightarrow> ls \<noteq> [] \<and> sorted_wrt float_eq ls"
proof (cases ls)
  case Nil
  then show ?thesis by (simp add: py_set_def)
next
  case (Cons x xs)
  have "py_set (x # xs) = foldl set_add [x] xs"
    by (simp add: py_set_def set_add_def)
  then have "length (py_set (x # xs)) = Suc 0 \<longleftrightarrow> sorted_wrt float_eq (x # xs)"
    using foldl_set_add_single [of x xs] all_equal_Cons [of xs x] by simp
  with Cons show ?thesis by simp
qed

text \<open>\<open>len(set(lengths)) == 1\<close> says that there is a duration and that any two of them
  are equal.\<close>

lemma py_set_single_nth:
  "length (py_set ls) = Suc 0 \<longleftrightarrow>
     ls \<noteq> [] \<and> (\<forall>i j. i < j \<and> j < length ls \<longrightarrow> float_eq (ls ! i) (ls ! j))"
  unfolding py_set_single sorted_wrt_iff_nth_less by blast

lemma lengths_of_length:
  "lengths_of channels rates = Inr ls \<Longrightarrow> length ls = min (length channels) (length rates)"
proof (induction channels rates arbitrary: ls rule: lengths_of.induct)
  case (1 key dataset channels sample_rate rates)
  then show ?case by (auto split: sum.splits)
qed auto

text \<open>The loop that writes the datasets raises nothing but the errors of the storage
  layer and of indexing.\<close>

lemma write_channels_errors:
  "write_channels f t0 rates i channels = (Some e, f') \<Longrightarrow>
     e = ValueError ''Unable to create dataset (name already exists)'' \<or> e = IndexError"
proof (induction channels arbitrary: f i)
  case Nil
  then show ?case by simp
next
  case (Cons c channels)
  obtain key val where c: "c = (key, val)" by (cases c)
  from Cons.prems show ?case
    unfolding c by (auto simp: Let_def split: if_splits dest: Cons.IH)
qed

text \<open>
  C6: for a non-empty channel mapping and a list of sample rates of the same length,
  with \<open>ls\<close> the durations \<open>len(samples) / sample_rate\<close> of the channels: if two of them
  differ, the write raises the \<open>ValueError\<close> of the duration check and the file system
  is as it was; if any two are equal, the write does not raise that error. Equal
  durations may come from different sample rates.
\<close>

theorem duration_check:
  assumes "channels \<noteq> []"
    and "length rates = length channels"
    and "lengths_of channels rates = Inr ls"
  shows "((\<exists>i j. i < j \<and> j < length ls \<and> \<not> float_eq (ls ! i) (ls ! j)) \<longrightarrow>
            write_timeseries fs write_dir t0 (RateList rates) prefix channels
              = (Inl (ValueError ''Duration of datasets must all be equal''), fs))
       \<and> ((\<forall>i j. i < j \<and> j < length ls \<longrightarrow> float_eq (ls ! i) (ls ! j)) \<longrightarrow>
            fst (write_timeseries fs write_dir t0 (RateList rates) prefix channels)
              \<noteq> Inl (ValueError ''Duration of datasets must all be equal''))"
proof -
  have ne: "ls \<noteq> []"
    using lengths_of_length [OF assms(3)] assms(1,2) by auto
  have single: "length (py_set ls) = Suc 0 \<longleftrightarrow>
      (\<forall>i j. i < j \<and> j < length ls \<longrightarrow> float_eq (ls ! i) (ls ! j))"
    using ne by (simp add: py_set_single_nth)
  have unfold: "write_timeseries fs write_dir t0 (RateList rates) prefix channels
      = write_with_rates fs write_dir t0 rates prefix channels"
    by (simp add: write_timeseries_def rate_list_def)
  show ?thesis
  proof (intro conjI impI)
    assume "\<exists>i j. i < j \<and> j < length ls \<and> \<not> float_eq (ls ! i) (ls ! j)"
    then have "length (py_set ls) \<noteq> Suc 0" using single by blast
    then show "write_timeseries fs write_dir t0 (RateList rates) prefix channels
        = (Inl (ValueError ''Duration of datasets must all be equal''), fs)"
      using assms(2,3) by (simp add: unfold write_with_rates_def duration_msg_def)
  next
    assume "\<forall>i j. i < j \<and> j < length ls \<longrightarrow> float_eq (ls ! i) (ls ! j)"
    then have one: "length (py_set ls) = Suc 0" using single by blast
    obtain l0 rest where ls: "ls = l0 # rest" using ne by (cases ls) auto
    show "fst (write_timeseries fs write_dir t0 (RateList rates) prefix channels)
        \<noteq> Inl (ValueError ''Duration of datasets must all be equal'')"
      using assms(2,3) one ls
      by (auto simp: unfold write_with_rates_def length_field_def float_to_int_def Let_def
               split: sum.splits prod.splits option.splits pyfloat.splits if_splits
               dest!: write_channels_errors)
  qed
qed

theorem duration_check_witness:
  "write_timeseries no_files data_dir (PyFloat (Fin 1000000000))
     (RateList [PyFloat (Fin 100), PyFloat (Fin 40)]) ''H1''
     [(''strain'', samples_1000), (''aux'', samples_500)]
     = (Inl (ValueError ''Duration of datasets must all be equal''), no_files)
   \<and> fst (write_timeseries no_files data_dir (PyFloat (Fin 1000000000))
            (RateList [PyFloat (Fin 100), PyFloat (Fin 50)]) ''H1''
            [(''strain'', samples_1000), (''aux'', samples_500)])
     \<noteq> Inl (ValueError ''Duration of datasets must all be equal'')"
proof -
  let ?channels = "[(''strain'', samples_1000), (''aux'', samples_500)]"
  have ne: "?channels \<noteq> []" by simp
  have len_a: "length [PyFloat (Fin 100), PyFloat (Fin 40)] = length ?channels" by simp
  have len_b: "length [PyFloat (Fin 100), PyFloat (Fin 50)] = length ?channels" by simp
  have ls_a: "lengths_of ?channels [PyFloat (Fin 100), PyFloat (Fin 40)]
      = Inr [Fin 10, Fin (25 / 2)]"
    by (simp add: len_div_values)
  have ls_b: "lengths_of ?channels [PyFloat (Fin 100), PyFloat (Fin 50)] = Inr [Fin 10, Fin 10]"
    by (simp add: len_div_values)
  have differ: "\<exists>i j. i < j \<and> j < length [Fin 10, Fin (25 / 2)]
      \<and> \<not> float_eq ([Fin 10, Fin (25 / 2)] ! i) ([Fin 10, Fin (25 / 2)] ! j)"
    by (rule exI [of _ 0], rule exI [of _ 1]) (simp add: float_eq_def)
  have equal: "\<forall>i j. i < j \<and> j < length [Fin 10, Fin 10]
      \<longrightarrow> float_eq ([Fin 10, Fin 10 :: pyfloat] ! i) ([Fin 10, Fin 10] ! j)"
    by (auto simp: float_eq_def nth_Cons split: nat.splits)
  from duration_check [where fs = no_files and write_dir = data_dir
        and ?t0.0 = "PyFloat (Fin 1000000000)" and prefix = "''H1''", OF ne len_a ls_a]
       duration_check [where fs = no_files and write_dir = data_dir
        and ?t0.0 = "PyFloat (Fin 1000000000)" and prefix = "''H1''", OF ne len_b ls_b]
       differ equal
  show ?thesis by blast
qed

section \<open>Writing an archive and reading it back\<close>







subsection \<open>The write of the scenario, step by step\<close>

lemma scenario_lengths:
  "lengths_of [(''strain'', samples_1000)] [PyFloat (Fin 100)] = Inr [Fin 10]"
  by (simp add: len_div_values)

lemma py_set_one: "py_set [x] = [x]"
  by (simp add: py_set_def set_add_def)

lemma length_field_10: "length_field (Fin 10) = Inr (PyInt 10)"
  by (simp add: length_field_def float_to_int_def int_eq_float_def)

lemma scenario_fname:
  "format_fname ''H1'' (PyFloat (Fin 1000000000)) (PyInt 10) = ''H1-1000000000.0-10.hdf5''"
  by (simp add: format_fname_def py_str_def float_repr_t0 int_str_def nat_str.simps digit_char_def)

lemma scenario_join:
  "joinpath data_dir ''H1-1000000000.0-10.hdf5'' = scenario_path"
  by (simp add: joinpath_def parse_path_def data_dir_def scenario_path_def)

lemma scenario_channels:
  "fst (write_channels empty_file (PyFloat (Fin 1000000000)) [PyFloat (Fin 100)] 0
          [(''strain'', samples_1000)]) = None"
  by (simp add: empty_file_def Let_def)

lemma scenario_write_path: "fst scenario_write = Inr scenario_path"
  by (simp add: scenario_write_def write_timeseries_def rate_list_def write_with_rates_def
        len_div_values py_set_one length_field_10 scenario_fname scenario_join
        Let_def case_prod_beta empty_file_def)



section \<open>Write path: the length field of the file name\<close>

lemma of_int_trunc_eq:
  "of_int (if 0 \<le> q then \<lfloor>q\<rfloor> else \<lceil>q\<rceil>) = (q :: rat) \<longleftrightarrow> frac q = 0"
  by (auto simp: frac_eq_0_iff Ints_def)

text \<open>
  Line 145 on a finite duration of value \<open>q\<close>: the integer \<open>int(length)\<close> when the
  fractional part of \<open>q\<close> is zero, the float itself otherwise.
\<close>

lemma length_field_Fin:
  "length_field (Fin q) = Inr (if frac q = 0 then PyInt \<lfloor>q\<rfloor> else PyFloat (Fin q))"
proof (cases "frac q = 0")
  case True
  then have "q \<in> \<int>" by (simp add: frac_eq_0_iff)
  then have "\<lceil>q\<rceil> = \<lfloor>q\<rfloor>" by (auto simp: Ints_def)
  with True of_int_trunc_eq [of q] show ?thesis
    by (simp add: length_field_def float_to_int_def int_eq_float_def)
next
  case False
  with of_int_trunc_eq [of q] show ?thesis
    by (simp add: length_field_def float_to_int_def int_eq_float_def)
qed



section \<open>Names that the grammar matches\<close>

subsection \<open>The matcher\<close>

lemma re_match_Lit_iff:
  "(r, g') \<in> set (re_match (Lit c) s g) \<longleftrightarrow> s = c # r \<and> g' = g"
  by (cases s) auto

lemma re_match_AnyChar_iff:
  "(r, g') \<in> set (re_match AnyChar s g) \<longleftrightarrow> (\<exists>x. s = x # r \<and> x \<noteq> newline) \<and> g' = g"
  by (cases s) auto

lemma re_match_CharClass_iff:
  "(r, g') \<in> set (re_match (CharClass cs) s g) \<longleftrightarrow> (\<exists>x. s = x # r \<and> in_class cs x) \<and> g' = g"
  by (cases s) auto

lemma re_match_Cat_iff:
  "(r, g') \<in> set (re_match (Cat a b) s g) \<longleftrightarrow>
     (\<exists>r1 g1. (r1, g1) \<in> set (re_match a s g) \<and> (r, g') \<in> set (re_match b r1 g1))"
  by auto

lemma re_match_Alt_iff:
  "(r, g') \<in> set (re_match (Alt a b) s g) \<longleftrightarrow>
     (r, g') \<in> set (re_match a s g) \<or> (r, g') \<in> set (re_match b s g)"
  by auto

lemma re_match_Group_iff:
  "(r, g') \<in> set (re_match (Group n a) s g) \<longleftrightarrow>
     (\<exists>g1. (r, g1) \<in> set (re_match a s g) \<and> g' = (n, take (length s - length r) s) # g1)"
  by auto

lemma re_match_End_iff:
  "(r, g') \<in> set (re_match EndOfString s g) \<longleftrightarrow> (s = [] \<or> s = [newline]) \<and> r = s \<and> g' = g"
  by auto

text \<open>A repetition takes any number of leading characters of the class within its bounds.\<close>

lemma re_match_Repeat_iff:
  "(r, g') \<in> set (re_match (Repeat cs lo hi) s g) \<longleftrightarrow>
     g' = g \<and> (\<exists>k. lo \<le> k \<and> k \<le> length (takeWhile (in_class cs) s)
                  \<and> (\<forall>h. hi = Some h \<longrightarrow> k \<le> h) \<and> r = drop k s)"
proof -
  define kmax where
    "kmax = (case hi of None \<Rightarrow> length (takeWhile (in_class cs) s)
             | Some h \<Rightarrow> min h (length (takeWhile (in_class cs) s)))"
  have bound: "k \<le> kmax \<longleftrightarrow>
      k \<le> length (takeWhile (in_class cs) s) \<and> (\<forall>h. hi = Some h \<longrightarrow> k \<le> h)" for k
    unfolding kmax_def by (cases hi) auto
  have "(r, g') \<in> set (re_match (Repeat cs lo hi) s g) \<longleftrightarrow>
      g' = g \<and> (\<exists>k. lo \<le> k \<and> k \<le> kmax \<and> r = drop k s)"
    unfolding kmax_def by (auto simp: Let_def)
  then show ?thesis unfolding bound by blast
qed

lemma re_match_Repeat_prefix:
  assumes "list_all (in_class cs) p" and "lo \<le> length p" and "\<forall>h. hi = Some h \<longrightarrow> length p \<le> h"
  shows "(r, g) \<in> set (re_match (Repeat cs lo hi) (p @ r) g)"
proof -
  from assms(1) have "takeWhile (in_class cs) (p @ r) = p @ takeWhile (in_class cs) r"
    by (simp add: takeWhile_append2 list_all_iff)
  then have "length p \<le> length (takeWhile (in_class cs) (p @ r))" by simp
  with assms(2,3) show ?thesis
    unfolding re_match_Repeat_iff by (intro conjI exI [of _ "length p"]) auto
qed

lemma re_search_Some:
  "re_match r s [] \<noteq> [] \<Longrightarrow> re_search r s \<noteq> None"
  by (cases s) (auto split: list.splits)

subsection \<open>Decimal digits\<close>

lemma digit_char_in_class: "d < 10 \<Longrightarrow> in_class digit_cls (digit_char d)"
proof -
  assume "d < 10"
  then consider "d = 0" | "d = 1" | "d = 2" | "d = 3" | "d = 4" | "d = 5" | "d = 6" | "d = 7"
    | "d = 8" | "d = 9"
    by atomize_elim arith
  then show ?thesis
    by cases (simp_all add: in_class_def digit_cls_def digit_char_def)
qed

lemma digit_char_nonzero:
  "0 < d \<Longrightarrow> d < 10 \<Longrightarrow> in_class [(CHR ''1'', CHR ''9'')] (digit_char d)"
proof -
  assume "0 < d" "d < 10"
  then consider "d = 1" | "d = 2" | "d = 3" | "d = 4" | "d = 5" | "d = 6" | "d = 7"
    | "d = 8" | "d = 9"
    by atomize_elim arith
  then show ?thesis
    by cases (simp_all add: in_class_def digit_char_def)
qed

lemma nat_str_digits: "list_all (in_class digit_cls) (nat_str n)"
proof (induction n rule: nat_str.induct)
  case (1 n)
  show ?case
  proof (cases "n < 10")
    case True
    then show ?thesis by (simp add: nat_str.simps [of n] digit_char_in_class)
  next
    case False
    with 1 show ?thesis by (simp add: nat_str.simps [of n] digit_char_in_class)
  qed
qed

lemma nat_str_length: "length (nat_str n) = dec_length n"
proof (induction n rule: nat_str.induct)
  case (1 n)
  show ?case
  proof (cases "n < 10")
    case True
    then show ?thesis by (simp add: nat_str.simps [of n] dec_length.simps [of n])
  next
    case False
    with 1 show ?thesis by (simp add: nat_str.simps [of n] dec_length.simps [of n])
  qed
qed

lemma nat_str_not_Nil: "nat_str n \<noteq> []"
  by (simp add: nat_str.simps [of n])

lemma nat_str_hd: "0 < n \<Longrightarrow> in_class [(CHR ''1'', CHR ''9'')] (hd (nat_str n))"
proof (induction n rule: nat_str.induct)
  case (1 n)
  show ?case
  proof (cases "n < 10")
    case True
    with 1(2) show ?thesis by (simp add: nat_str.simps [of n] digit_char_nonzero)
  next
    case False
    then have "0 < n div 10" by simp
    with 1(1) False have "in_class [(CHR ''1'', CHR ''9'')] (hd (nat_str (n div 10)))" by simp
    with False show ?thesis by (simp add: nat_str.simps [of n] nat_str_not_Nil)
  qed
qed

lemma dec_length_upper: "n < 10 ^ k \<Longrightarrow> 0 < k \<Longrightarrow> dec_length n \<le> k"
proof (induction n arbitrary: k rule: dec_length.induct)
  case (1 n)
  show ?case
  proof (cases "n < 10")
    case True
    with 1(3) show ?thesis by (simp add: dec_length.simps [of n])
  next
    case False
    from 1(3) obtain k' where k: "k = Suc k'" by (cases k) auto
    from False 1(2) have "0 < k'" unfolding k by (cases k') auto
    moreover from 1(2) have "n div 10 < 10 ^ k'"
      unfolding k by (simp add: less_mult_imp_div_less mult.commute)
    ultimately have "dec_length (n div 10) \<le> k'" using 1(1) False by simp
    with False show ?thesis by (simp add: dec_length.simps [of n] k)
  qed
qed

lemma dec_length_lower: "10 ^ k \<le> n \<Longrightarrow> k < dec_length n"
proof (induction n arbitrary: k rule: dec_length.induct)
  case (1 n)
  show ?case
  proof (cases "n < 10")
    case True
    have "k = 0"
    proof (cases k)
      case (Suc k')
      have "(10::nat) \<le> 10 * 10 ^ k'" by simp
      with 1(2) True Suc show ?thesis by simp
    qed simp
    with True show ?thesis by (simp add: dec_length.simps [of n])
  next
    case False
    show ?thesis
    proof (cases k)
      case 0
      with False show ?thesis by (simp add: dec_length.simps [of n])
    next
      case (Suc k')
      with 1(2) have "10 ^ k' \<le> n div 10"
        by (simp add: less_eq_div_iff_mult_less_eq mult.commute)
      with 1(1) False have "k' < dec_length (n div 10)" by simp
      with False Suc show ?thesis by (simp add: dec_length.simps [of n])
    qed
  qed
qed

subsection \<open>A name of the form \<open>prefix-t0-length.hdf5\<close> matches\<close>

lemma CatI:
  "(r1, g1) \<in> set (re_match a s g) \<Longrightarrow> (r, g') \<in> set (re_match b r1 g1)
     \<Longrightarrow> (r, g') \<in> set (re_match (Cat a b) s g)"
  unfolding re_match_Cat_iff by blast

lemma GroupI:
  "(r, g1) \<in> set (re_match a (p @ r) g) \<Longrightarrow> (r, (n, p) # g1) \<in> set (re_match (Group n a) (p @ r) g)"
  unfolding re_match_Group_iff by simp

lemma LitI: "(r, g) \<in> set (re_match (Lit c) (c # r) g)"
  by simp

lemma ClassI: "in_class cs x \<Longrightarrow> (r, g) \<in> set (re_match (CharClass cs) (x # r) g)"
  by simp

lemma suffix_tail:
  "re_match (Cat AnyChar (Cat (Group ''suffix'' suffix_re) EndOfString)) ''.hdf5'' g
     = [([], (''suffix'', ''hdf5'') # g)]"
  by (simp add: suffix_re_def newline_def)

lemma grammar_name_matches:
  assumes "prefix \<noteq> []" and "list_all (in_class prefix_cls) prefix"
    and "list_all (in_class digit_cls) t" and "length t = 10"
    and "in_class [(CHR ''1'', CHR ''9'')] l0"
    and "list_all (in_class digit_cls) ls" and "length ls \<le> 3"
  shows "re_search fname_re (prefix @ ''-'' @ t @ ''-'' @ (l0 # ls) @ ''.hdf5'') \<noteq> None"
proof -
  let ?g1 = "[(''prefix'', prefix)]"
  let ?g2 = "(''t0'', t) # ?g1"
  let ?g3 = "(''length'', l0 # ls) # ?g2"
  let ?g4 = "(''suffix'', ''hdf5'') # ?g3"
  let ?r3 = "''.hdf5''"
  let ?r2 = "''-'' @ (l0 # ls) @ ?r3"
  let ?r1 = "''-'' @ t @ ?r2"
  have prefix: "(?r1, ?g1) \<in> set (re_match (Group ''prefix'' prefix_re) (prefix @ ?r1) [])"
    unfolding prefix_re_def
    by (rule GroupI, rule re_match_Repeat_prefix) (use assms(1,2) in \<open>auto simp: Suc_le_eq\<close>)
  have t0: "(?r2, ?g2) \<in> set (re_match (Group ''t0'' t0_re) (t @ ?r2) ?g1)"
    unfolding t0_re_def
    by (rule GroupI, rule re_match_Repeat_prefix) (use assms(3,4) in auto)
  have rest: "(?r3, ?g2) \<in> set (re_match (Repeat digit_cls 0 (Some 3)) (ls @ ?r3) ?g2)"
    by (rule re_match_Repeat_prefix) (use assms(6,7) in auto)
  have "(?r3, ?g2) \<in> set (re_match length_re (l0 # ls @ ?r3) ?g2)"
    unfolding length_re_def by (rule CatI [OF ClassI [OF assms(5)] rest])
  then have "(?r3, ?g2) \<in> set (re_match length_re ((l0 # ls) @ ?r3) ?g2)" by simp
  then have len: "(?r3, ?g3) \<in> set (re_match (Group ''length'' length_re) ((l0 # ls) @ ?r3) ?g2)"
    by (rule GroupI)
  have tail: "([], ?g4) \<in> set (re_match (Cat AnyChar (Cat (Group ''suffix'' suffix_re) EndOfString))
      ?r3 ?g3)"
    unfolding suffix_tail by simp
  have dash2: "((l0 # ls) @ ?r3, ?g2) \<in> set (re_match (Lit CHR ''-'') ?r2 ?g2)" by simp
  have dash1: "(t @ ?r2, ?g1) \<in> set (re_match (Lit CHR ''-'') ?r1 ?g1)" by simp
  have "([], ?g4) \<in> set (re_match fname_re (prefix @ ?r1) [])"
    unfolding fname_re_def
    by (rule CatI [OF prefix], rule CatI [OF dash1], rule CatI [OF t0], rule CatI [OF dash2],
        rule CatI [OF len], rule tail)
  then have "re_match fname_re (prefix @ ?r1) [] \<noteq> []" by auto
  then have "re_search fname_re (prefix @ ?r1) \<noteq> None" by (rule re_search_Some)
  then show ?thesis by simp
qed

subsection \<open>The base name of the path returned\<close>

lemma split_on_absent: "c \<notin> set s \<Longrightarrow> split_on c s = [s]"
  by (induction s) auto

lemma parse_path_plain:
  assumes "CHR ''/'' \<notin> set s" and "s \<noteq> []" and "s \<noteq> ''.''"
  shows "parse_path s = Path [] [s]"
proof -
  from assms(1) have "takeWhile (\<lambda>c. c = CHR ''/'') s = []"
    by (cases s) auto
  with assms show ?thesis
    by (simp add: parse_path_def split_on_absent)
qed

lemma path_name_joinpath:
  assumes "CHR ''/'' \<notin> set s" and "s \<noteq> []" and "s \<noteq> ''.''"
  shows "path_name (joinpath p s) = s"
  by (simp add: joinpath_def parse_path_plain [OF assms] path_name_def)

lemma prefix_cls_no_slash: "in_class prefix_cls c \<Longrightarrow> c \<noteq> CHR ''/''"
  by (auto simp: in_class_def prefix_cls_def)

lemma digit_cls_no_slash: "in_class digit_cls c \<Longrightarrow> c \<noteq> CHR ''/''"
  by (auto simp: in_class_def digit_cls_def)

lemma digit_cls_narrow: "in_class [(CHR ''1'', CHR ''9'')] c \<Longrightarrow> in_class digit_cls c"
proof -
  assume "in_class [(CHR ''1'', CHR ''9'')] c"
  then have c: "CHR ''1'' \<le> c" "c \<le> CHR ''9''" by (auto simp: in_class_def)
  have "CHR ''0'' \<le> CHR ''1''" by simp
  from this c(1) have "CHR ''0'' \<le> c" by (rule order_trans)
  with c(2) show "in_class digit_cls c" by (simp add: in_class_def digit_cls_def)
qed

section \<open>Catalog sorter: the names that match are returned\<close>

lemma insert_entry_set: "insert_entry x ys = Inr zs \<Longrightarrow> set zs = insert x (set ys)"
proof (induction ys arbitrary: zs)
  case Nil
  then show ?case by auto
next
  case (Cons y ys)
  show ?case
  proof (cases "tuple_lt x y")
    case (Inl e)
    with Cons.prems show ?thesis by simp
  next
    case (Inr b)
    show ?thesis
    proof (cases b)
      case True
      with Inr Cons.prems show ?thesis by auto
    next
      case False
      with Inr Cons.prems obtain zs' where "insert_entry x ys = Inr zs'" and "zs = y # zs'"
        by (auto split: sum.splits)
      with Cons.IH [of zs'] show ?thesis by auto
    qed
  qed
qed

lemma sort_onto_set: "sort_onto acc xs = Inr zs \<Longrightarrow> set zs = set acc \<union> set xs"
proof (induction xs arbitrary: acc)
  case Nil
  then show ?case by simp
next
  case (Cons x xs)
  from Cons.prems obtain acc' where a: "insert_entry x acc = Inr acc'"
    and s: "sort_onto acc' xs = Inr zs"
    by (auto split: sum.splits)
  from Cons.IH [OF s] insert_entry_set [OF a] show ?case by auto
qed

lemma py_sorted_set: "py_sorted tups = Inr ts \<Longrightarrow> set ts = set tups"
  unfolding py_sorted_def by (drule sort_onto_set) simp

lemma tups_of_mem: "(Some m, f) \<in> set ms \<Longrightarrow> (group m ''t0'', f, m) \<in> set (tups_of ms)"
  by (induction ms rule: tups_of.induct) auto

lemma sort_matches_includes:
  assumes "sort_matches fnames (map name fnames) False = Inr out"
    and "f \<in> set fnames" and "re_search fname_re (name f) = Some m"
  shows "RetName f \<in> set out"
proof -
  have zip: "zip (map (re_search fname_re) (map name fnames)) fnames
      = map (\<lambda>x. (re_search fname_re (name x), x)) fnames"
    by (induction fnames) auto
  from assms(1) obtain ts where
    ts: "py_sorted (tups_of (map (\<lambda>x. (re_search fname_re (name x), x)) fnames)) = Inr ts"
    and out: "out = map (\<lambda>(t, f, m). RetName f) ts"
    unfolding sort_matches_def zip by (auto simp: Let_def split: sum.splits)
  from assms(2,3) have "(Some m, f) \<in> set (map (\<lambda>x. (re_search fname_re (name x), x)) fnames)"
    by force
  then have "(group m ''t0'', f, m) \<in> set ts"
    using tups_of_mem py_sorted_set [OF ts] by blast
  then show ?thesis unfolding out by force
qed

lemma filter_and_sort_includes:
  assumes "filter_and_sort_files iterdir (Many files) False = Inr out"
    and "f \<in> set files" and "re_search fname_re (path_name (to_path f)) \<noteq> None"
  shows "RetName f \<in> set out"
proof -
  from assms(3) obtain m where m: "re_search fname_re (path_name (to_path f)) = Some m" by auto
  from assms(1) have
    "sort_matches files (map (\<lambda>f. path_name (to_path f)) files) False = Inr out"
    by (auto simp: filter_and_sort_files_def split: if_splits sum.splits)
  from sort_matches_includes [OF this assms(2) m] show ?thesis .
qed

text \<open>A sort that returns a result returns exactly the identifiers whose names match.\<close>

lemma tups_of_set:
  "set (tups_of ms) = {(group m ''t0'', f, m) | m f. (Some m, f) \<in> set ms}"
  by (induction ms rule: tups_of.induct) auto

lemma sort_matches_set:
  assumes "sort_matches fnames (map name fnames) False = Inr out"
  shows "set out = RetName ` {f \<in> set fnames. re_search fname_re (name f) \<noteq> None}"
proof -
  have zip: "zip (map (re_search fname_re) (map name fnames)) fnames
      = map (\<lambda>x. (re_search fname_re (name x), x)) fnames"
    by (induction fnames) auto
  from assms obtain ts where
    ts: "py_sorted (tups_of (map (\<lambda>x. (re_search fname_re (name x), x)) fnames)) = Inr ts"
    and out: "out = map (\<lambda>(t, f, m). RetName f) ts"
    unfolding sort_matches_def zip by (auto simp: Let_def split: sum.splits)
  have "set ts = {(group m ''t0'', f, m) | m f. f \<in> set fnames \<and> re_search fname_re (name f) = Some m}"
    unfolding py_sorted_set [OF ts] tups_of_set by force
  then show ?thesis unfolding out by force
qed

text \<open>The entries come out in the order of their \<open>t0\<close> strings.\<close>

lemma tuple_lt_fst:
  assumes "tuple_lt x y = Inr b"
  shows "if b then fst x \<le> fst y else fst y \<le> fst x"
proof -
  obtain t f m t' f' m' where x: "x = (t, f, m)" and y: "y = (t', f', m')"
    by (cases x, cases y) auto
  show ?thesis
  proof (cases "t = t'")
    case True
    then show ?thesis by (simp add: x y)
  next
    case False
    with assms have "b = (t < t')" by (simp add: tuple_lt_def x y)
    with False show ?thesis by (auto simp: x y)
  qed
qed

lemma insert_entry_sorted:
  assumes "sorted_wrt (\<lambda>a b. fst a \<le> fst b) ys" and "insert_entry x ys = Inr zs"
  shows "sorted_wrt (\<lambda>a b. fst a \<le> fst b) zs"
  using assms
proof (induction ys arbitrary: zs)
  case Nil
  then show ?case by auto
next
  case (Cons y ys)
  show ?case
  proof (cases "tuple_lt x y")
    case (Inl e)
    with Cons.prems show ?thesis by simp
  next
    case (Inr b)
    show ?thesis
    proof (cases b)
      case True
      with Inr Cons.prems(2) have zs: "zs = x # y # ys" by simp
      from tuple_lt_fst [OF Inr] True have xy: "fst x \<le> fst y" by simp
      have "fst x \<le> fst z" if "z \<in> set ys" for z
      proof -
        from Cons.prems(1) that have "fst y \<le> fst z" by auto
        with xy show ?thesis by (rule order_trans)
      qed
      with xy Cons.prems(1) show ?thesis unfolding zs by auto
    next
      case False
      with Inr Cons.prems(2) obtain zs' where ins: "insert_entry x ys = Inr zs'"
        and zs: "zs = y # zs'"
        by (auto split: sum.splits)
      from Cons.prems(1) have "sorted_wrt (\<lambda>a b. fst a \<le> fst b) ys" by simp
      from Cons.IH [OF this ins] have sorted: "sorted_wrt (\<lambda>a b. fst a \<le> fst b) zs'" .
      from tuple_lt_fst [OF Inr] False have yx: "fst y \<le> fst x" by simp
      have "fst y \<le> fst z" if "z \<in> set zs'" for z
        using that insert_entry_set [OF ins] yx Cons.prems(1) by auto
      with sorted show ?thesis unfolding zs by auto
    qed
  qed
qed

lemma sort_onto_sorted:
  "sorted_wrt (\<lambda>a b. fst a \<le> fst b) acc \<Longrightarrow> sort_onto acc xs = Inr zs
     \<Longrightarrow> sorted_wrt (\<lambda>a b. fst a \<le> fst b) zs"
proof (induction xs arbitrary: acc)
  case Nil
  then show ?case by simp
next
  case (Cons x xs)
  from Cons.prems(2) obtain acc' where a: "insert_entry x acc = Inr acc'"
    and s: "sort_onto acc' xs = Inr zs"
    by (auto split: sum.splits)
  from Cons.IH [OF insert_entry_sorted [OF Cons.prems(1) a] s] show ?case .
qed

lemma py_sorted_by_t0:
  "py_sorted tups = Inr ts \<Longrightarrow> sorted_wrt (\<lambda>a b. fst a \<le> fst b) ts"
  unfolding py_sorted_def by (rule sort_onto_sorted) simp_all

text \<open>
  What has a match: \<open>search\<close> finds the pattern anywhere before the end of the name, and
  the dot of the pattern stands for any character, so these two names are accepted;
  a fractional length or one of five digits is not.
\<close>

lemma loose_names_accepted:
  "re_search fname_re ''H1-1000000000-10xhdf5'' \<noteq> None"
  "re_search fname_re ''?H1-1000000000-10.hdf5'' \<noteq> None"
  by code_simp+

lemma other_unmatched_names:
  "re_search fname_re ''H1-1000000000-12.5.hdf5'' = None"
  "re_search fname_re ''H1-1000000000-10000.hdf5'' = None"
  by code_simp+

section \<open>The names the write path gives its files\<close>

lemma write_success_fname:
  assumes "rate_list sample_rate (length channels) = Inr rates"
    and "lengths_of channels rates = Inr (d # ds)"
    and "write_timeseries fs write_dir t0 sample_rate prefix channels = (Inr fname, fs')"
  shows "\<exists>len. length_field d = Inr len \<and> fname = joinpath write_dir (format_fname prefix t0 len)"
proof -
  from assms have "write_with_rates fs write_dir t0 rates prefix channels = (Inr fname, fs')"
    by (simp add: write_timeseries_def)
  with assms(2) show ?thesis
    by (auto simp: write_with_rates_def Let_def
             split: if_splits sum.splits prod.splits option.splits)
qed

text \<open>
  C1, the counterexample: the write of the scenario succeeds, with a start time that
  is a float, a conforming prefix and one channel; the name of the file it returns has
  no match of \<open>fname_re\<close>, and the sort of a collection holding that name or that path
  returns nothing.
\<close>

theorem float_t0_name_unmatched:
  "fst scenario_write = Inr scenario_path
   \<and> path_name scenario_path = ''H1-1000000000.0-10.hdf5''
   \<and> re_search fname_re (path_name scenario_path) = None
   \<and> filter_and_sort_files no_directories (Many [PStr ''H1-1000000000.0-10.hdf5'']) False = Inr []
   \<and> filter_and_sort_files no_directories (Many [PPath scenario_path]) False = Inr []"
proof -
  have name: "path_name scenario_path = ''H1-1000000000.0-10.hdf5''"
    by (simp add: path_name_def scenario_path_def)
  have none: "re_search fname_re ''H1-1000000000.0-10.hdf5'' = None"
    by code_simp
  have strs: "filter_and_sort_files no_directories (Many [PStr ''H1-1000000000.0-10.hdf5'']) False
      = Inr []"
    by code_simp
  have paths: "filter_and_sort_files no_directories (Many [PPath scenario_path]) False = Inr []"
    by code_simp
  from scenario_write_path name none strs paths show ?thesis by simp
qed

text \<open>
  C1, as amended: when a write succeeds whose start time is an integer of ten decimal
  digits, whose common duration is a whole number from 1 to 9999 and whose prefix is
  not empty and made of the characters of the prefix grammar, the base name of the
  path returned is \<open>prefix-t0-length.hdf5\<close> with these numbers in decimal, \<open>fname_re\<close>
  matches it, and every sort of a collection that returns a result and holds an
  identifier with that base name returns that identifier.
\<close>

theorem written_name_matches:
  assumes "write_timeseries fs write_dir (PyInt t) sample_rate prefix channels = (Inr fname, fs')"
    and "rate_list sample_rate (length channels) = Inr rates"
    and "lengths_of channels rates = Inr (Fin (of_int n) # ds)"
    and "1000000000 \<le> t" and "t \<le> 9999999999"
    and "1 \<le> n" and "n \<le> 9999"
    and "prefix \<noteq> []" and "list_all (in_class prefix_cls) prefix"
  shows "path_name fname = prefix @ ''-'' @ int_str t @ ''-'' @ int_str n @ ''.hdf5''
       \<and> re_search fname_re (path_name fname) \<noteq> None
       \<and> (\<forall>iterdir files out f.
             f \<in> set files \<and> path_name (to_path f) = path_name fname
             \<and> filter_and_sort_files iterdir (Many files) False = Inr out
             \<longrightarrow> RetName f \<in> set out)"
proof -
  let ?T = "nat_str (nat t)" and ?L = "nat_str (nat n)"
  let ?name = "prefix @ ''-'' @ ?T @ ''-'' @ ?L @ ''.hdf5''"
  have "length_field (Fin (of_int n)) = Inr (PyInt n)"
    by (simp add: length_field_Fin)
  with write_success_fname [OF assms(2,3,1)]
  have fname: "fname = joinpath write_dir (format_fname prefix (PyInt t) (PyInt n))" by simp
  have strs: "int_str t = ?T" "int_str n = ?L"
    using assms(4,6) by (simp_all add: int_str_def)
  have fmt: "format_fname prefix (PyInt t) (PyInt n) = ?name"
    by (simp add: format_fname_def py_str_def strs)
  have T_digits: "list_all (in_class digit_cls) ?T" and L_digits: "list_all (in_class digit_cls) ?L"
    by (rule nat_str_digits)+
  have "nat t < 10 ^ 10" "10 ^ 9 \<le> nat t" using assms(4,5) by simp_all
  then have "dec_length (nat t) \<le> 10" "9 < dec_length (nat t)"
    using dec_length_upper [of "nat t" 10] dec_length_lower [of 9 "nat t"] by simp_all
  then have T_len: "length ?T = 10" by (simp add: nat_str_length)
  have "nat n < 10 ^ 4" using assms(7) by simp
  then have "dec_length (nat n) \<le> 4" using dec_length_upper [of "nat n" 4] by simp
  then have L_len: "length ?L \<le> 4" by (simp add: nat_str_length)
  obtain l0 ls where L: "?L = l0 # ls" using nat_str_not_Nil [of "nat n"] by (cases ?L) auto
  have "0 < nat n" using assms(6) by simp
  from nat_str_hd [OF this] L have l0: "in_class [(CHR ''1'', CHR ''9'')] l0" by simp
  from L_digits L have ls: "list_all (in_class digit_cls) ls" by simp
  from L_len L have ls_len: "length ls \<le> 3" by simp
  have "CHR ''/'' \<notin> set prefix"
    using assms(9) prefix_cls_no_slash unfolding list_all_iff by blast
  moreover have "CHR ''/'' \<notin> set ?T"
    using T_digits digit_cls_no_slash unfolding list_all_iff by blast
  moreover have "CHR ''/'' \<notin> set ?L"
    using L_digits digit_cls_no_slash unfolding list_all_iff by blast
  ultimately have no_slash: "CHR ''/'' \<notin> set ?name" by simp
  have not_empty: "?name \<noteq> []" and not_dot: "?name \<noteq> ''.''"
    using assms(8) by (cases prefix; simp)+
  have base: "path_name fname = ?name"
    unfolding fname fmt by (rule path_name_joinpath [OF no_slash not_empty not_dot])
  have matched: "re_search fname_re ?name \<noteq> None"
    using grammar_name_matches [OF assms(8,9) T_digits T_len l0 ls ls_len] L by simp
  show ?thesis
  proof (intro conjI allI impI)
    show "path_name fname = prefix @ ''-'' @ int_str t @ ''-'' @ int_str n @ ''.hdf5''"
      using base strs by simp
    show "re_search fname_re (path_name fname) \<noteq> None"
      using base matched by simp
  next
    fix iterdir files out f
    assume a: "f \<in> set files \<and> path_name (to_path f) = path_name fname
      \<and> filter_and_sort_files iterdir (Many files) False = Inr out"
    then have "re_search fname_re (path_name (to_path f)) \<noteq> None"
      using base matched by simp
    with a show "RetName f \<in> set out"
      using filter_and_sort_includes by blast
  qed
qed

subsection \<open>The write with an integer start time\<close>

lemma int_t0_fname:
  "format_fname ''H1'' (PyInt 1000000000) (PyInt 10) = ''H1-1000000000-10.hdf5''"
  by (simp add: format_fname_def py_str_def int_str_def nat_str.simps digit_char_def)

lemma int_t0_join: "joinpath data_dir ''H1-1000000000-10.hdf5'' = h1_path"
  by (simp add: joinpath_def parse_path_def data_dir_def h1_path_def)

lemma int_t0_write_path: "fst int_t0_write = Inr h1_path"
  by (simp add: int_t0_write_def write_timeseries_def rate_list_def write_with_rates_def
        len_div_values py_set_one length_field_10 int_t0_fname int_t0_join
        Let_def case_prod_beta empty_file_def)

lemma int_t0_write_pair: "int_t0_write = (Inr h1_path, snd int_t0_write)"
  using int_t0_write_path by (simp add: prod_eq_iff)

theorem written_name_matches_witness:
  "int_t0_write = (Inr h1_path, snd int_t0_write)
   \<and> rate_list (Scalar (PyFloat (Fin 100))) (length [(''strain'', samples_1000)])
       = Inr [PyFloat (Fin 100)]
   \<and> lengths_of [(''strain'', samples_1000)] [PyFloat (Fin 100)] = Inr [Fin (of_int 10)]
   \<and> list_all (in_class prefix_cls) ''H1''
   \<and> path_name h1_path = ''H1-1000000000-10.hdf5''
   \<and> re_search fname_re (path_name h1_path) \<noteq> None
   \<and> filter_and_sort_files no_directories (Many [PPath (Path [] [''notes.txt'']), PPath h1_path]) False
       = Inr [RetName (PPath h1_path)]"
proof -
  have rates: "rate_list (Scalar (PyFloat (Fin 100))) (length [(''strain'', samples_1000)])
      = Inr [PyFloat (Fin 100)]"
    by (simp add: rate_list_def)
  have ls: "lengths_of [(''strain'', samples_1000)] [PyFloat (Fin 100)] = Inr [Fin (of_int 10)]"
    using scenario_lengths by simp
  have cls: "list_all (in_class prefix_cls) ''H1''"
    by (simp add: in_class_def prefix_cls_def)
  have sorted: "filter_and_sort_files no_directories (Many [PPath (Path [] [''notes.txt'']), PPath h1_path]) False
      = Inr [RetName (PPath h1_path)]"
    by code_simp
  have t: "(1000000000 :: int) \<le> 1000000000" "(1000000000 :: int) \<le> 9999999999"
    and n: "(1 :: int) \<le> 10" "(10 :: int) \<le> 9999"
    and ne: "''H1'' \<noteq> []"
    by simp_all
  note matches =
    written_name_matches [OF int_t0_write_pair [unfolded int_t0_write_def] rates ls t n ne cls]
  from matches [THEN conjunct1]
  have name: "path_name h1_path = ''H1-1000000000-10.hdf5''"
    by (simp add: int_str_def nat_str.simps digit_char_def)
  from matches [THEN conjunct2, THEN conjunct1]
  have found: "re_search fname_re (path_name h1_path) \<noteq> None" .
  from int_t0_write_pair rates ls cls name found sorted show ?thesis by blast
qed

end
